theory Spec2Isabelle
  imports Complex_Main
begin

section \<open>Retry with exponential backoff and jitter (std/async/retry.ts)\<close>

text \<open>
  The module exports \<^verbatim>\<open>retry\<close>, \<^verbatim>\<open>RetryError\<close> and
  \<^verbatim>\<open>_exponentialBackoffWithJitter\<close>. Conventions of the embedding:
  \<^item> the options and the draws of \<^verbatim>\<open>Math.random\<close> are real numbers, standing for the
    finite doubles a caller passes; \<^verbatim>\<open>NaN\<close> and the infinities are not among the
    inputs;
  \<^item> what the code computes from them is a \<open>number\<close>: a finite double, an infinity or
    \<^verbatim>\<open>NaN\<close>, with the rounding and the overflow of IEEE 754 binary64 (the sign of a
    zero is not represented);
  \<^item> the loop counter \<^verbatim>\<open>i\<close> starts at 0 and is only incremented, so it is a \<open>nat\<close>;
  \<^item> a promise that resolves is \<open>Inr\<close>, a throw or a rejection is \<open>Inl\<close>;
  \<^item> the caller's operation and \<^verbatim>\<open>Math.random\<close> act on a world \<open>'w\<close> that is passed
    through the call; the call is followed in isolation, so what other tasks do while
    it waits on its timer is not part of the world's evolution;
  \<^item> every invocation of the operation and every timer wait is logged in a trace, in
    the order in which the code performs them.
\<close>

subsection \<open>Data\<close>

text \<open>
  \<^verbatim>\<open>interface RetryOptions\<close>: every field is optional; \<open>None\<close> is a field the
  caller left out. (A field that is present and holds \<^verbatim>\<open>undefined\<close> is not
  represented.)
\<close>

record RetryOptions =
  opt_multiplier :: "real option"
  opt_maxTimeout :: "real option"
  opt_maxAttempts :: "real option"
  opt_minTimeout :: "real option"

text \<open>\<^verbatim>\<open>Required<RetryOptions>\<close>: the same four fields, all present.\<close>

record RequiredRetryOptions =
  multiplier :: real
  maxTimeout :: real
  maxAttempts :: real
  minTimeout :: real

text \<open>The value of an arithmetic expression: \<open>Num x\<close> is the finite double \<open>x\<close>.\<close>

datatype number = Num real | PosInf | NegInf | NaN

text \<open>
  What a call can fail with. \<^verbatim>\<open>new RetryError(cause, count)\<close> keeps \<open>cause\<close> as the
  error's \<^verbatim>\<open>cause\<close> (\<open>None\<close> is \<^verbatim>\<open>undefined\<close>) and writes \<open>count\<close> into its
  message \<^verbatim>\<open>Exceeded max retry count (count)\<close>; the constructor's two
  arguments stand for the error.
\<close>

datatype 'e failure =
    AssertionError string
  | RetryError "'e option" real

text \<open>\<open>Waited t\<close>: the call awaited \<^verbatim>\<open>setTimeout(r, t)\<close>.\<close>

datatype event = Invoked | Waited number

type_synonym ('w, 'e, 'a) operation = "'w \<Rightarrow> ('e + 'a) \<times> 'w"

type_synonym 'w rng = "'w \<Rightarrow> real \<times> 'w"

text \<open>
  The engine's \<^verbatim>\<open>**\<close> at a base and a whole exponent. ECMAScript fixes its result
  only up to an implementation-approximated value (and \<open>x ** 0 = 1\<close>), so the
  embedding takes it as a parameter of the call.
\<close>

type_synonym exponentiation = "real \<Rightarrow> nat \<Rightarrow> number"

record ('w, 'e, 'a) run =
  outcome :: "'e failure + 'a"
  world :: 'w
  trace :: "event list"

subsection \<open>Double arithmetic\<close>

text \<open>
  Rounding to the nearest double, ties to even. \<open>rne\<close> rounds a real to the nearest
  integer, ties to even. The doubles around \<open>x\<close> are the multiples of \<open>quantum x\<close>:
  \<open>2^(e - 52)\<close> where \<open>2^e \<le> |x| < 2^(e + 1)\<close>, and \<open>2^(-1074)\<close> below the normal range
  (\<open>e < -1022\<close>). \<open>rnd\<close> rounds with an unbounded exponent and \<open>fl\<close> lets the result
  overflow to an infinity from \<open>2^1024\<close> on.
\<close>

definition rne :: "real \<Rightarrow> int" where
  "rne x =
     (let f = \<lfloor>x\<rfloor>; d = x - of_int f in
      if d < 1 / 2 then f
      else if 1 / 2 < d then f + 1
      else if even f then f else f + 1)"

definition binade :: "real \<Rightarrow> int" where
  "binade x = max \<lfloor>log 2 \<bar>x\<bar>\<rfloor> (- 1022)"

definition quantum :: "real \<Rightarrow> real" where
  "quantum x = 2 powr (of_int (binade x) - 52)"

definition rnd :: "real \<Rightarrow> real" where
  "rnd x = of_int (rne (x / quantum x)) * quantum x"

definition fl :: "real \<Rightarrow> number" where
  "fl x =
     (let y = rnd x in
      if 2 ^ 1024 \<le> y then PosInf
      else if y \<le> - (2 ^ 1024) then NegInf
      else Num y)"

text \<open>
  The product \<^verbatim>\<open>a * b\<close> and \<^verbatim>\<open>Math.min(a, b)\<close> of two numbers: \<^verbatim>\<open>NaN\<close> spreads, zero
  times an infinity is \<^verbatim>\<open>NaN\<close>, a finite product is rounded.
\<close>

fun mul :: "number \<Rightarrow> number \<Rightarrow> number" where
  "mul NaN b = NaN"
| "mul a NaN = NaN"
| "mul (Num x) (Num y) = fl (x * y)"
| "mul (Num x) PosInf = (if x = 0 then NaN else if 0 < x then PosInf else NegInf)"
| "mul (Num x) NegInf = (if x = 0 then NaN else if 0 < x then NegInf else PosInf)"
| "mul PosInf (Num y) = (if y = 0 then NaN else if 0 < y then PosInf else NegInf)"
| "mul NegInf (Num y) = (if y = 0 then NaN else if 0 < y then NegInf else PosInf)"
| "mul PosInf PosInf = PosInf"
| "mul PosInf NegInf = NegInf"
| "mul NegInf PosInf = NegInf"
| "mul NegInf NegInf = PosInf"

fun math_min :: "number \<Rightarrow> number \<Rightarrow> number" where
  "math_min NaN b = NaN"
| "math_min a NaN = NaN"
| "math_min NegInf b = NegInf"
| "math_min a NegInf = NegInf"
| "math_min PosInf b = b"
| "math_min a PosInf = a"
| "math_min (Num x) (Num y) = Num (min x y)"

text \<open>\<open>at_least d n\<close>: the number \<open>n\<close> is not \<^verbatim>\<open>NaN\<close> and \<open>d \<le> n\<close>.\<close>

fun at_least :: "real \<Rightarrow> number \<Rightarrow> bool" where
  "at_least d (Num p) = (d \<le> p)"
| "at_least d PosInf = True"
| "at_least d NegInf = False"
| "at_least d NaN = False"

subsection \<open>Operations\<close>

definition defaultRetryOptions :: RequiredRetryOptions where
  "defaultRetryOptions =
     \<lparr>multiplier = 2, maxTimeout = 60000, maxAttempts = 5, minTimeout = 1000\<rparr>"

text \<open>
  The object spread \<^verbatim>\<open>{...defaultRetryOptions, ...opts}\<close>: a new object, each field
  taken from \<open>opts\<close> when \<open>opts\<close> is given and has it, from the defaults otherwise.
\<close>

definition spread_field :: "real \<Rightarrow> real option \<Rightarrow> real" where
  "spread_field d v = (case v of None \<Rightarrow> d | Some x \<Rightarrow> x)"

definition spread_options :: "RequiredRetryOptions \<Rightarrow> RetryOptions option \<Rightarrow> RequiredRetryOptions" where
  "spread_options d opts =
     (case opts of
        None \<Rightarrow> d
      | Some p \<Rightarrow>
          \<lparr>multiplier = spread_field (multiplier d) (opt_multiplier p),
           maxTimeout = spread_field (maxTimeout d) (opt_maxTimeout p),
           maxAttempts = spread_field (maxAttempts d) (opt_maxAttempts p),
           minTimeout = spread_field (minTimeout d) (opt_minTimeout p)\<rparr>)"

text \<open>
  Modelled from the spec: \<^verbatim>\<open>assert\<close> is imported from \<^verbatim>\<open>../_util/asserts.ts\<close>, which is
  not among the sources. The spec calls its failure a precondition failure, raised
  before any attempt and distinct from an operation failure: \<open>assert expr msg\<close> is
  \<open>None\<close> when \<open>expr\<close> holds and an \<open>AssertionError\<close> carrying \<open>msg\<close> otherwise.
\<close>

definition assert :: "bool \<Rightarrow> string \<Rightarrow> 'e failure option" where
  "assert expr msg = (if expr then None else Some (AssertionError msg))"

text \<open>
  \<^verbatim>\<open>_exponentialBackoffWithJitter(cap, base, attempt, multiplier)\<close>, that is
  \<^verbatim>\<open>Math.random() * Math.min(cap, base * multiplier ** attempt)\<close>; the value \<open>r\<close> is
  what the call of \<^verbatim>\<open>Math.random()\<close> inside it returns and \<open>pow\<close> is the engine's
  \<^verbatim>\<open>**\<close>. The only call site passes the loop counter as \<open>attempt\<close>, so the exponent is
  a \<open>nat\<close>.
\<close>

definition exponentialBackoffWithJitter ::
  "exponentiation \<Rightarrow> real \<Rightarrow> real \<Rightarrow> nat \<Rightarrow> real \<Rightarrow> real \<Rightarrow> number" where
  "exponentialBackoffWithJitter pow cap base attempt mult r =
     mul (Num r) (math_min (Num cap) (mul (Num base) (pow mult attempt)))"

text \<open>
  The \<^verbatim>\<open>for\<close> loop of \<^verbatim>\<open>retry\<close>, from the state \<open>(i, timeout, error)\<close> of its
  variables. A successful attempt returns at once. A failed one waits \<open>timeout\<close>,
  recomputes \<open>timeout\<close> from the current \<open>i\<close>, stores the error and goes round again.
  Leaving the loop throws the \<open>RetryError\<close>.
\<close>

function retry_loop ::
  "exponentiation \<Rightarrow> ('w, 'e, 'a) operation \<Rightarrow> 'w rng \<Rightarrow> RequiredRetryOptions \<Rightarrow> nat \<Rightarrow>
     number \<Rightarrow> 'e option \<Rightarrow> 'w \<Rightarrow> event list \<Rightarrow> ('w, 'e, 'a) run" where
  "retry_loop pow fn random options i timeout error w tr =
     (if real i < maxAttempts options then
        (case fn w of
           (Inr v, w1) \<Rightarrow> \<lparr>outcome = Inr v, world = w1, trace = tr @ [Invoked]\<rparr>
         | (Inl err, w1) \<Rightarrow>
             (case random w1 of
                (r, w2) \<Rightarrow>
                  retry_loop pow fn random options (i + 1)
                    (exponentialBackoffWithJitter pow (maxTimeout options) (minTimeout options) i
                       (multiplier options) r)
                    (Some err) w2 (tr @ [Invoked, Waited timeout])))
      else \<lparr>outcome = Inl (RetryError error (maxAttempts options)), world = w, trace = tr\<rparr>)"
  by pat_completeness auto
termination
  apply (relation "measure (\<lambda>(pow, fn, random, options, i, timeout, error, w, tr).
                            nat \<lceil>maxAttempts options\<rceil> - i)")
   apply simp
  apply (simp add: less_ceiling_iff)
  apply linarith
  done

declare retry_loop.simps [simp del]

text \<open>
  \<^verbatim>\<open>retry(fn, opts)\<close>: merge the options, check the two assertions, then run the loop
  from \<open>i = 0\<close>, \<open>timeout = minTimeout\<close> and no error seen yet.
\<close>

definition retry ::
  "exponentiation \<Rightarrow> ('w, 'e, 'a) operation \<Rightarrow> 'w rng \<Rightarrow> RetryOptions option \<Rightarrow> 'w \<Rightarrow>
     ('w, 'e, 'a) run" where
  "retry pow fn random opts w =
     (let options = spread_options defaultRetryOptions opts in
      case assert (maxTimeout options \<ge> 0) ''maxTimeout is less than 0'' of
        Some e \<Rightarrow> \<lparr>outcome = Inl e, world = w, trace = []\<rparr>
      | None \<Rightarrow>
          (case assert (minTimeout options \<le> maxTimeout options)
                  ''minTimeout is greater than maxTimeout'' of
             Some e \<Rightarrow> \<lparr>outcome = Inl e, world = w, trace = []\<rparr>
           | None \<Rightarrow> retry_loop pow fn random options 0 (Num (minTimeout options)) None w []))"

text \<open>The options the call works with: \<^verbatim>\<open>{...defaultRetryOptions, ...opts}\<close>.\<close>

abbreviation merged :: "RetryOptions option \<Rightarrow> RequiredRetryOptions" where
  "merged opts \<equiv> spread_options defaultRetryOptions opts"

subsection \<open>Observing a run\<close>

text \<open>How often the trace shows the operation invoked, and the waits it shows, in order.\<close>

definition invocations :: "event list \<Rightarrow> nat" where
  "invocations tr = length (filter (\<lambda>e. e = Invoked) tr)"

fun waits :: "event list \<Rightarrow> number list" where
  "waits [] = []"
| "waits (Invoked # es) = waits es"
| "waits (Waited t # es) = t # waits es"

text \<open>
  The world in which attempt \<open>k\<close> (counted from 0) starts when every earlier attempt has
  failed: each failed attempt is followed by one call of \<^verbatim>\<open>Math.random\<close>. Attempt \<open>k\<close>
  is what the operation does in that world.
\<close>

fun world_before :: "('w, 'e, 'a) operation \<Rightarrow> 'w rng \<Rightarrow> 'w \<Rightarrow> nat \<Rightarrow> 'w" where
  "world_before fn random w 0 = w"
| "world_before fn random w (Suc k) = world_before fn random (snd (random (snd (fn w)))) k"

definition attempt :: "('w, 'e, 'a) operation \<Rightarrow> 'w rng \<Rightarrow> 'w \<Rightarrow> nat \<Rightarrow> 'e + 'a" where
  "attempt fn random w k = fst (fn (world_before fn random w k))"


definition is_double :: "real \<Rightarrow> bool" where
  "is_double x \<longleftrightarrow> fl x = Num x"

subsection \<open>The options object as the caller holds it\<close>

text \<open>
  JavaScript passes \<open>opts\<close> as a reference to an object that the caller, and through
  its closure the operation, can still reach. Here the world carries a store of such
  objects next to the rest of the state; the call receives an address (or
  \<^verbatim>\<open>undefined\<close>), and the spread reads the object once, on entry. The merged
  \<open>options\<close> object is local to the call and is not in the store.
\<close>

type_synonym addr = nat

type_synonym 'u heap = "(addr \<rightharpoonup> RetryOptions) \<times> 'u"

definition retry_by_reference ::
  "exponentiation \<Rightarrow> ('u heap, 'e, 'a) operation \<Rightarrow> 'u heap rng \<Rightarrow> addr option \<Rightarrow> 'u heap \<Rightarrow>
     ('u heap, 'e, 'a) run" where
  "retry_by_reference pow fn random ref w =
     retry pow fn random (case ref of None \<Rightarrow> None | Some a \<Rightarrow> fst w a) w"

subsection \<open>Sample operations\<close>

text \<open>
  The world of the samples counts the invocations made so far. \<open>flaky n\<close> fails on its
  first \<open>n\<close> invocations, with the invocation's number as the cause, and returns 42
  from then on; \<open>broken\<close> fails every time; \<open>half\<close> is a random source that always
  draws one half. \<open>scribbler\<close> fails every time and overwrites the object at address 1
  of the store. \<open>correctly_rounded\<close> is the \<^verbatim>\<open>**\<close> of an engine that rounds the
  exact power to the nearest double.
\<close>

definition correctly_rounded :: exponentiation where
  "correctly_rounded m i = fl (m ^ i)"

definition flaky :: "nat \<Rightarrow> (nat, nat, int) operation" where
  "flaky n w = (if w < n then Inl w else Inr 42, Suc w)"

definition broken :: "(nat, nat, int) operation" where
  "broken w = (Inl w, Suc w)"

definition half :: "'w rng" where
  "half w = (1 / 2, w)"

definition no_options :: RetryOptions where
  "no_options =
     \<lparr>opt_multiplier = None, opt_maxTimeout = None, opt_maxAttempts = None, opt_minTimeout = None\<rparr>"

definition scribbler :: "(nat heap, nat, int) operation" where
  "scribbler w = (Inl (snd w), ((fst w)(1 \<mapsto> no_options), Suc (snd w)))"

text \<open>
  \<open>scenario\<close> is the configuration of the spec's concrete scenario: five attempts,
  timeouts from 10 to 1000 ms, multiplier 2.
\<close>

definition scenario :: RetryOptions where
  "scenario =
     \<lparr>opt_multiplier = Some 2, opt_maxTimeout = Some 1000, opt_maxAttempts = Some 5,
      opt_minTimeout = Some 10\<rparr>"

text \<open>
  Further configurations: \<open>inverted\<close> has \<open>minTimeout\<close> above \<open>maxTimeout\<close>;
  \<open>no_attempts\<close> and \<open>one_attempt\<close> set only \<open>maxAttempts\<close>, to 0 and to 1; \<open>flat\<close>
  has \<open>minTimeout = maxTimeout\<close> (the default 1000 against a given 1000) and
  multiplier 3.
\<close>

definition inverted :: RetryOptions where
  "inverted =
     \<lparr>opt_multiplier = None, opt_maxTimeout = Some 50, opt_maxAttempts = None,
      opt_minTimeout = Some 100\<rparr>"

definition no_attempts :: RetryOptions where
  "no_attempts =
     \<lparr>opt_multiplier = None, opt_maxTimeout = None, opt_maxAttempts = Some 0,
      opt_minTimeout = None\<rparr>"

definition one_attempt :: RetryOptions where
  "one_attempt =
     \<lparr>opt_multiplier = None, opt_maxTimeout = None, opt_maxAttempts = Some 1,
      opt_minTimeout = None\<rparr>"


section \<open>Properties\<close>

subsection \<open>Rounding\<close>

lemma rne_of_int: "rne (of_int n) = n"
  by (simp add: rne_def)

lemma rne_bounds: "\<lfloor>x\<rfloor> \<le> rne x \<and> rne x \<le> \<lfloor>x\<rfloor> + 1"
  by (simp add: rne_def Let_def)

lemma rne_mono: "x \<le> y \<Longrightarrow> rne x \<le> rne y"
proof (cases "\<lfloor>x\<rfloor> = \<lfloor>y\<rfloor>")
  case True
  assume "x \<le> y"
  then show ?thesis using True by (auto simp: rne_def Let_def)
next
  case False
  assume "x \<le> y"
  then have "\<lfloor>x\<rfloor> \<le> \<lfloor>y\<rfloor>" by (rule floor_mono)
  then have "\<lfloor>x\<rfloor> + 1 \<le> \<lfloor>y\<rfloor>" using False by simp
  then show ?thesis using rne_bounds[of x] rne_bounds[of y] by linarith
qed

lemma quantum_pos: "0 < quantum x"
  by (simp add: quantum_def)

lemma scale_53: "9007199254740992 * 2 powr (a - 52) = (2::real) powr (a + 1)"
proof -
  have "(2::real) powr 53 * 2 powr (a - 52) = 2 powr (53 + (a - 52))"
    by (simp only: powr_add)
  then show ?thesis by (simp add: add.commute)
qed

lemma scale_52: "4503599627370496 * 2 powr (a - 52) = (2::real) powr a"
proof -
  have "(2::real) powr 52 * 2 powr (a - 52) = 2 powr (52 + (a - 52))"
    by (simp only: powr_add)
  then show ?thesis by simp
qed

lemma binade_ge: "- 1022 \<le> binade x"
  by (simp add: binade_def)

lemma binade_upper:
  assumes "0 < x"
  shows "x < 2 powr (of_int (binade x) + 1)"
proof -
  have "x < 2 powr (of_int \<lfloor>log 2 x\<rfloor> + 1)"
    using floor_log_eq_powr_iff[of x 2 "\<lfloor>log 2 x\<rfloor>"] assms by simp
  also have "\<dots> \<le> 2 powr (of_int (binade x) + 1)"
    using assms by (simp add: binade_def)
  finally show ?thesis .
qed

lemma binade_lower:
  assumes "0 < x" and "- 1022 \<le> \<lfloor>log 2 x\<rfloor>"
  shows "2 powr (of_int (binade x)) \<le> x"
proof -
  have "binade x = \<lfloor>log 2 x\<rfloor>" using assms by (simp add: binade_def)
  moreover have "2 powr (of_int \<lfloor>log 2 x\<rfloor>) \<le> x"
    using floor_log_eq_powr_iff[of x 2 "\<lfloor>log 2 x\<rfloor>"] assms by simp
  ultimately show ?thesis by simp
qed

lemma binade_mono:
  assumes "0 < x" and "x \<le> y"
  shows "binade x \<le> binade y"
proof -
  have "log 2 x \<le> log 2 y" using assms by simp
  then have "\<lfloor>log 2 x\<rfloor> \<le> \<lfloor>log 2 y\<rfloor>" by (rule floor_mono)
  then show ?thesis using assms by (simp add: binade_def)
qed

lemma binade_le:
  assumes "0 < v" and "v < 2 powr (of_int k + 1)" and "- 1022 \<le> k"
  shows "binade v \<le> k"
proof -
  have "log 2 v < of_int k + 1"
    using assms(1,2) by (simp add: log_less_iff)
  then have "\<lfloor>log 2 v\<rfloor> \<le> k" by (simp add: floor_le_iff)
  then show ?thesis using assms(1,3) by (simp add: binade_def)
qed

lemma rnd_0: "rnd 0 = 0"
  by (simp add: rnd_def rne_def)

lemma rnd_nonneg:
  assumes "0 \<le> x"
  shows "0 \<le> rnd x"
proof -
  have "0 \<le> x / quantum x" using assms quantum_pos[of x] by simp
  then have "rne 0 \<le> rne (x / quantum x)" by (rule rne_mono)
  then have "0 \<le> rne (x / quantum x)" by (simp add: rne_def)
  then show ?thesis using quantum_pos[of x] by (simp add: rnd_def)
qed

lemma rnd_upper:
  assumes "0 < x"
  shows "rnd x \<le> 2 powr (of_int (binade x) + 1)"
proof -
  have "x / quantum x \<le> 2 powr (of_int (binade x) + 1) / quantum x"
    using binade_upper[OF assms] quantum_pos[of x] by (simp add: divide_right_mono)
  also have "\<dots> = of_int 9007199254740992"
    using scale_53[of "of_int (binade x)"] quantum_pos[of x]
    by (simp add: quantum_def field_simps)
  finally have "rne (x / quantum x) \<le> rne (of_int 9007199254740992)" by (rule rne_mono)
  then have "rne (x / quantum x) \<le> 9007199254740992" by (simp only: rne_of_int)
  then have "real_of_int (rne (x / quantum x)) \<le> 9007199254740992" by linarith
  then have "rnd x \<le> 9007199254740992 * quantum x"
    using quantum_pos[of x] by (simp add: rnd_def)
  also have "\<dots> = 2 powr (of_int (binade x) + 1)"
    unfolding quantum_def by (rule scale_53)
  finally show ?thesis .
qed

lemma rnd_lower:
  assumes "0 < x" and "2 powr (of_int (binade x)) \<le> x"
  shows "2 powr (of_int (binade x)) \<le> rnd x"
proof -
  have "2 powr (of_int (binade x)) / quantum x \<le> x / quantum x"
    using assms(2) quantum_pos[of x] by (simp add: divide_right_mono)
  moreover have "2 powr (of_int (binade x)) / quantum x = of_int 4503599627370496"
    using scale_52[of "of_int (binade x)"] quantum_pos[of x]
    by (simp add: quantum_def field_simps)
  ultimately have "rne (of_int 4503599627370496) \<le> rne (x / quantum x)"
    by (metis rne_mono)
  then have "4503599627370496 \<le> rne (x / quantum x)" by (simp only: rne_of_int)
  then have "4503599627370496 \<le> real_of_int (rne (x / quantum x))" by linarith
  then have "4503599627370496 * quantum x \<le> rnd x"
    using quantum_pos[of x] by (simp add: rnd_def)
  moreover have "4503599627370496 * quantum x = 2 powr (of_int (binade x))"
    unfolding quantum_def by (rule scale_52)
  ultimately show ?thesis by simp
qed

lemma rnd_mono:
  assumes "0 \<le> x" and "x \<le> y"
  shows "rnd x \<le> rnd y"
proof (cases "x = 0")
  case True
  then show ?thesis using rnd_nonneg[of y] assms by (simp add: rnd_0)
next
  case False
  then have x: "0 < x" and y: "0 < y" using assms by simp_all
  have le: "binade x \<le> binade y" using x assms(2) by (rule binade_mono)
  show ?thesis
  proof (cases "binade x = binade y")
    case True
    then have q: "quantum x = quantum y" by (simp add: quantum_def)
    have "x / quantum y \<le> y / quantum y"
      using assms(2) quantum_pos[of y] by (simp add: divide_right_mono)
    then have "rne (x / quantum y) \<le> rne (y / quantum y)" by (rule rne_mono)
    then show ?thesis using quantum_pos[of y] by (simp add: rnd_def q)
  next
    case False
    then have lt: "binade x + 1 \<le> binade y" using le by simp
    then have "- 1022 < binade y" using binade_ge[of x] by linarith
    then have "- 1022 \<le> \<lfloor>log 2 y\<rfloor>" using y unfolding binade_def by simp linarith
    then have "2 powr (of_int (binade y)) \<le> rnd y"
      using y by (intro rnd_lower binade_lower)
    moreover have "rnd x \<le> 2 powr (of_int (binade x) + 1)" using x by (rule rnd_upper)
    moreover have "(2::real) powr (of_int (binade x) + 1) \<le> 2 powr (of_int (binade y))"
      using lt by (simp add: algebra_simps) 
    ultimately show ?thesis by linarith
  qed
qed

lemma rnd_exact:
  assumes "0 < v" and "v = of_int n * 2 powr (of_int k)" and "- 1074 \<le> k"
    and "v < 2 powr (of_int k + 53)"
  shows "rnd v = v"
proof -
  have "v < 2 powr (of_int (k + 52) + 1)" using assms(4) by (simp add: add.commute)
  then have "binade v \<le> k + 52" using assms(1,3) by (intro binade_le) simp_all
  then obtain j :: nat where j: "int j = k + 52 - binade v"
    by (metis diff_ge_0_iff_ge nonneg_int_cases)
  have "real_of_int (int j) = real_of_int (k + 52 - binade v)" using j by simp
  then have "real j = of_int k + 52 - of_int (binade v)" by simp
  then have "of_int k = real j + (of_int (binade v) - 52)" by linarith
  then have "2 powr (of_int k) = 2 powr (real j) * quantum v"
    by (simp only: quantum_def powr_add)
  then have k: "2 powr (of_int k) = 2 ^ j * quantum v"
    by (simp add: powr_realpow)
  define q where "q = quantum v"
  have q: "0 < q" unfolding q_def by (rule quantum_pos)
  have v: "v = of_int (n * 2 ^ j) * q"
    using assms(2) k by (simp add: q_def)
  then have "v / q = of_int (n * 2 ^ j)" using q by simp
  then have "rne (v / q) = n * 2 ^ j" by (simp only: rne_of_int)
  then have "of_int (rne (v / q)) * q = v" using v by simp
  then show ?thesis by (simp add: rnd_def q_def)
qed


lemma rnd_nat:
  assumes "n < 2 ^ 53"
  shows "rnd (real n) = real n"
proof (cases "n = 0")
  case True
  then show ?thesis by (simp add: rnd_0)
next
  case False
  have "n < 9007199254740992" using assms by simp
  then have "real n < 9007199254740992" by linarith
  then have a: "real n < 2 powr (of_int 0 + 53)" by simp
  have b: "real n = of_int (int n) * 2 powr (of_int 0)" by simp
  have c: "0 < real n" using False by simp
  show ?thesis using c b _ a by (rule rnd_exact) simp
qed


lemma is_double_rnd: "is_double x \<Longrightarrow> rnd x = x"
  by (auto simp: is_double_def fl_def Let_def split: if_splits)


lemma is_doubleI: "rnd x = x \<Longrightarrow> 0 \<le> x \<Longrightarrow> x < 2 ^ 1024 \<Longrightarrow> is_double x"
  by (simp add: is_double_def fl_def Let_def)



lemma fl_above_double:
  assumes "0 \<le> d" and "d \<le> x" and "is_double d"
  shows "fl x = PosInf \<or> (\<exists>z. fl x = Num z \<and> d \<le> z)"
proof -
  have "rnd d \<le> rnd x" using assms(1,2) by (rule rnd_mono)
  then have lo: "d \<le> rnd x" using is_double_rnd[OF assms(3)] by simp
  then have "\<not> rnd x \<le> - (2 ^ 1024)" using assms(1) by simp
  then show ?thesis using lo by (auto simp: fl_def Let_def)
qed

lemma is_double_0: "is_double 0"
  by (rule is_doubleI) (simp_all add: rnd_0)

lemma is_double_nat: "n < 2 ^ 53 \<Longrightarrow> is_double (real n)"
proof (rule is_doubleI)
  assume n: "n < 2 ^ 53"
  then show "rnd (real n) = real n" by (rule rnd_nat)
  show "0 \<le> real n" by simp
  have "(2::nat) ^ 53 < 2 ^ 1024" by simp
  then have "n < 2 ^ 1024" using n by linarith
  then show "real n < 2 ^ 1024"
    by (metis of_nat_less_iff of_nat_numeral of_nat_power)
qed








lemma correctly_rounded_at_least:
  assumes "is_double d" and "0 \<le> d" and "d \<le> m ^ i"
  shows "at_least d (correctly_rounded m i)"
  using fl_above_double[OF assms(2,3,1)] by (auto simp: correctly_rounded_def)

lemma fl_overflow: "fl (2 ^ 1024) = PosInf"
proof -
  have a: "(0::real) < 2 ^ 1024" by simp
  have b: "(2::real) ^ 1024 = of_int 1 * 2 powr (of_int 1024)" by simp
  have c: "- 1074 \<le> (1024::int)" by simp
  have "(2::real) powr 1024 < 2 powr 1077" by (simp only: powr_less_cancel_iff)
  then have d: "(2::real) ^ 1024 < 2 powr (of_int 1024 + 53)" by simp
  have "rnd (2 ^ 1024) = 2 ^ 1024" using a b c d by (rule rnd_exact)
  then show ?thesis by (simp add: fl_def)
qed

lemma rnd_smallest:
  "rnd (3 / 4 * 2 powr (- 1074)) = 2 powr (- 1074)"
proof -
  let ?x = "3 / 4 * 2 powr (- 1074) :: real"
  have pos: "0 < ?x" by simp
  have "?x < 1 * 2 powr (- 1074)" by (simp only: mult_less_cancel_right) simp
  also have "\<dots> < 2 powr (of_int (- 1022) + 1)" by simp
  finally have "binade ?x \<le> - 1022" using pos by (intro binade_le) simp_all
  then have "binade ?x = - 1022" using binade_ge[of ?x] by linarith
  then have q: "quantum ?x = 2 powr (- 1074)" by (simp add: quantum_def)
  have r: "rne (3 / 4) = 1" by (simp add: rne_def)
  have "?x / quantum ?x = 3 / 4" unfolding q by simp
  then have "rne (?x / quantum ?x) = 1" by (simp only: r)
  then show ?thesis unfolding rnd_def q by simp
qed

lemma product_reaches_smallest_cap:
  "mul (Num (3 / 4)) (Num (2 powr (- 1074))) = Num (2 powr (- 1074))"
proof -
  have "(2::real) powr (- 1074) \<le> 2 powr 0" by (simp only: powr_le_cancel_iff)
  then have le: "(2::real) powr (- 1074) \<le> 1" by simp
  have "(1::real) < 2 ^ 1024" by simp
  then have "\<not> 2 ^ 1024 \<le> (2::real) powr (- 1074)" using le by linarith
  moreover have "\<not> (2::real) powr (- 1074) \<le> - (2 ^ 1024)"
    by (metis less_le_not_le neg_less_0_iff_less order_less_le_trans powr_gt_zero zero_less_numeral zero_less_power)
  ultimately have "fl (3 / 4 * 2 powr (- 1074)) = Num (2 powr (- 1074))"
    unfolding fl_def Let_def rnd_smallest by (simp only: if_False)
  then show ?thesis by (simp only: mul.simps)
qed

lemma correctly_rounded_nonneg: "0 \<le> m \<Longrightarrow> at_least 0 (correctly_rounded m i)"
  by (rule correctly_rounded_at_least) (simp_all add: is_double_0)

lemma correctly_rounded_ge_1: "1 \<le> m \<Longrightarrow> at_least 1 (correctly_rounded m i)"
proof (rule correctly_rounded_at_least)
  show "is_double 1" using is_double_nat[of 1] by simp
  show "(0::real) \<le> 1" by simp
  show "1 \<le> m \<Longrightarrow> 1 \<le> m ^ i" by (rule one_le_power)
qed

subsection \<open>The backoff formula\<close>



lemma backoff_nan_on_overflow:
  "exponentialBackoffWithJitter correctly_rounded 60000 0 1024 2 (1 / 2) = NaN"
  unfolding exponentialBackoffWithJitter_def correctly_rounded_def fl_overflow by simp

subsection \<open>One turn of the loop\<close>

lemma waits_append: "waits (xs @ ys) = waits xs @ waits ys"
  by (induction xs rule: waits.induct) simp_all

lemma invocations_append: "invocations (xs @ ys) = invocations xs + invocations ys"
  by (simp add: invocations_def)

lemma retry_loop_exit:
  "\<not> real i < maxAttempts options \<Longrightarrow>
   retry_loop pow fn random options i timeout error w tr =
     \<lparr>outcome = Inl (RetryError error (maxAttempts options)), world = w, trace = tr\<rparr>"
  by (subst retry_loop.simps) simp

lemma retry_loop_return:
  "real i < maxAttempts options \<Longrightarrow> fn w = (Inr v, w1) \<Longrightarrow>
   retry_loop pow fn random options i timeout error w tr =
     \<lparr>outcome = Inr v, world = w1, trace = tr @ [Invoked]\<rparr>"
  by (subst retry_loop.simps) simp

lemma retry_loop_catch:
  "real i < maxAttempts options \<Longrightarrow> fn w = (Inl err, w1) \<Longrightarrow> random w1 = (r, w2) \<Longrightarrow>
   retry_loop pow fn random options i timeout error w tr =
     retry_loop pow fn random options (Suc i)
       (exponentialBackoffWithJitter pow (maxTimeout options) (minTimeout options) i
          (multiplier options) r)
       (Some err) w2 (tr @ [Invoked, Waited timeout])"
  by (subst retry_loop.simps) simp

lemma attempt_0: "attempt fn random w 0 = fst (fn w)"
  by (simp add: attempt_def)

lemma attempt_Suc:
  "attempt fn random w (Suc k) = attempt fn random (snd (random (snd (fn w)))) k"
  by (simp add: attempt_def)

lemma retry_loop_succeeds:
  "\<forall>j<k. isl (attempt fn random w j) \<Longrightarrow> attempt fn random w k = Inr v \<Longrightarrow>
   real (i + k) < maxAttempts options \<Longrightarrow>
   outcome (retry_loop pow fn random options i t err w tr) = Inr v \<and>
   invocations (trace (retry_loop pow fn random options i t err w tr)) = invocations tr + k + 1 \<and>
   length (waits (trace (retry_loop pow fn random options i t err w tr))) = length (waits tr) + k"
proof (induction k arbitrary: i t err w tr)
  case 0
  obtain w1 where "fn w = (Inr v, w1)"
    using 0 by (cases "fn w") (simp add: attempt_0)
  with 0 show ?case
    by (simp add: retry_loop_return invocations_append waits_append invocations_def)
next
  case (Suc k)
  from Suc.prems(1) have "isl (attempt fn random w 0)" by blast
  then obtain e w1 where f: "fn w = (Inl e, w1)"
    by (cases "fn w") (auto simp: attempt_0 isl_def)
  obtain r w2 where r: "random w1 = (r, w2)" by (cases "random w1")
  have w2: "snd (random (snd (fn w))) = w2" using f r by simp
  have a: "\<forall>j<k. isl (attempt fn random w2 j)"
    using Suc.prems(1) w2 by (auto simp: attempt_Suc[symmetric])
  have b: "attempt fn random w2 k = Inr v"
    using Suc.prems(2) w2 by (simp add: attempt_Suc)
  have c: "real (Suc i + k) < maxAttempts options" using Suc.prems(3) by simp
  have d: "real i < maxAttempts options" using Suc.prems(3) by simp
  have step: "retry_loop pow fn random options i t err w tr =
      retry_loop pow fn random options (Suc i)
        (exponentialBackoffWithJitter pow (maxTimeout options) (minTimeout options) i
           (multiplier options) r)
        (Some e) w2 (tr @ [Invoked, Waited t])"
    using d f r by (rule retry_loop_catch)
  show ?case
    unfolding step using Suc.IH[OF a b c]
    by (simp add: invocations_append waits_append invocations_def)
qed

lemma retry_loop_exhausts:
  "maxAttempts options = real n \<Longrightarrow> i + k = n \<Longrightarrow> \<forall>j<k. isl (attempt fn random w j) \<Longrightarrow>
   outcome (retry_loop pow fn random options i t err w tr) =
     Inl (RetryError (if k = 0 then err else Some (projl (attempt fn random w (k - 1)))) (real n)) \<and>
   invocations (trace (retry_loop pow fn random options i t err w tr)) = invocations tr + k \<and>
   length (waits (trace (retry_loop pow fn random options i t err w tr))) = length (waits tr) + k"
proof (induction k arbitrary: i t err w tr)
  case 0
  then have "\<not> real i < maxAttempts options" by simp
  then show ?case using 0 by (simp add: retry_loop_exit)
next
  case (Suc k)
  from Suc.prems(3) have "isl (attempt fn random w 0)" by blast
  then obtain e w1 where f: "fn w = (Inl e, w1)"
    by (cases "fn w") (auto simp: attempt_0 isl_def)
  obtain r w2 where r: "random w1 = (r, w2)" by (cases "random w1")
  have w2: "snd (random (snd (fn w))) = w2" using f r by simp
  have a: "\<forall>j<k. isl (attempt fn random w2 j)"
    using Suc.prems(3) w2 by (auto simp: attempt_Suc[symmetric])
  have c: "Suc i + k = n" using Suc.prems(2) by simp
  have d: "real i < maxAttempts options" using Suc.prems(1,2) by simp
  have step: "retry_loop pow fn random options i t err w tr =
      retry_loop pow fn random options (Suc i)
        (exponentialBackoffWithJitter pow (maxTimeout options) (minTimeout options) i
           (multiplier options) r)
        (Some e) w2 (tr @ [Invoked, Waited t])"
    using d f r by (rule retry_loop_catch)
  have cause: "(if k = 0 then Some e else Some (projl (attempt fn random w2 (k - 1)))) =
               Some (projl (attempt fn random w (Suc k - 1)))"
  proof (cases k)
    case 0
    then show ?thesis using f by (simp add: attempt_0)
  next
    case (Suc m)
    then show ?thesis using w2 by (simp add: attempt_Suc)
  qed
  show ?case
    unfolding step using Suc.IH[OF Suc.prems(1) c a] cause
    by (simp add: invocations_append waits_append invocations_def)
qed




lemma retry_loop_world:
  "(\<forall>w. P w \<longrightarrow> P (snd (fn w))) \<Longrightarrow> (\<forall>w. P w \<longrightarrow> P (snd (random w))) \<Longrightarrow> P w \<Longrightarrow>
   P (world (retry_loop pow fn random options i t err w tr))"
proof (induction pow fn random options i t err w tr rule: retry_loop.induct)
  case (1 pow fn random options i timeout error w tr)
  show ?case
  proof (cases "real i < maxAttempts options")
    case False
    then show ?thesis using "1.prems" by (simp add: retry_loop_exit)
  next
    case True
    obtain res w1 where f: "fn w = (res, w1)" by (cases "fn w")
    have "P (snd (fn w))" using "1.prems"(1,3) by blast
    then have p1: "P w1" using f by simp
    show ?thesis
    proof (cases res)
      case (Inr v)
      then show ?thesis using True f p1 by (simp add: retry_loop_return)
    next
      case (Inl e)
      obtain r w2 where r: "random w1 = (r, w2)" by (cases "random w1")
      have "P (snd (random w1))" using "1.prems"(2) p1 by blast
      then have p2: "P w2" using r by simp
      have f': "fn w = (Inl e, w1)" using f Inl by simp
      have step: "retry_loop pow fn random options i timeout error w tr =
          retry_loop pow fn random options (Suc i)
            (exponentialBackoffWithJitter pow (maxTimeout options) (minTimeout options) i
               (multiplier options) r)
            (Some e) w2 (tr @ [Invoked, Waited timeout])"
        using True f' r by (rule retry_loop_catch)
      have "P (world (retry_loop pow fn random options (i + 1)
              (exponentialBackoffWithJitter pow (maxTimeout options) (minTimeout options) i
                 (multiplier options) r)
              (Some e) w2 (tr @ [Invoked, Waited timeout])))"
        by (rule "1.IH"[OF True f'[symmetric] refl r[symmetric] "1.prems"(1,2) p2])
      then show ?thesis unfolding step by simp
    qed
  qed
qed

subsection \<open>The call as a whole\<close>

lemma merged_scenario:
  "merged (Some scenario) = \<lparr>multiplier = 2, maxTimeout = 1000, maxAttempts = 5, minTimeout = 10\<rparr>"
  by (simp add: spread_options_def spread_field_def scenario_def)

lemma retry_accepted:
  "0 \<le> maxTimeout (merged opts) \<Longrightarrow> minTimeout (merged opts) \<le> maxTimeout (merged opts) \<Longrightarrow>
   retry pow fn random opts w =
     retry_loop pow fn random (merged opts) 0 (Num (minTimeout (merged opts))) None w []"
  by (simp add: retry_def assert_def Let_def)

lemma retry_rejected:
  "maxTimeout (merged opts) < 0 \<or> maxTimeout (merged opts) < minTimeout (merged opts) \<Longrightarrow>
   \<exists>msg. retry pow fn random opts w = \<lparr>outcome = Inl (AssertionError msg), world = w, trace = []\<rparr>"
  by (auto simp add: retry_def assert_def Let_def)

lemma merged_inverted:
  "merged (Some inverted) = \<lparr>multiplier = 2, maxTimeout = 50, maxAttempts = 5, minTimeout = 100\<rparr>"
  by (simp add: spread_options_def spread_field_def inverted_def defaultRetryOptions_def)

lemma merged_no_attempts:
  "merged (Some no_attempts) =
     \<lparr>multiplier = 2, maxTimeout = 60000, maxAttempts = 0, minTimeout = 1000\<rparr>"
  by (simp add: spread_options_def spread_field_def no_attempts_def defaultRetryOptions_def)

lemma merged_one_attempt:
  "merged (Some one_attempt) =
     \<lparr>multiplier = 2, maxTimeout = 60000, maxAttempts = 1, minTimeout = 1000\<rparr>"
  by (simp add: spread_options_def spread_field_def one_attempt_def defaultRetryOptions_def)



lemma retry_waits_on_success:
  assumes "0 \<le> maxTimeout (merged opts)"
    and "minTimeout (merged opts) \<le> maxTimeout (merged opts)"
    and "real k < maxAttempts (merged opts)"
    and "\<forall>j<k. isl (attempt fn random w j)"
    and "attempt fn random w k = Inr v"
  shows "length (waits (trace (retry pow fn random opts w))) = k"
proof -
  have "real (0 + k) < maxAttempts (merged opts)" using assms(3) by simp
  from retry_loop_succeeds[OF assms(4) assms(5) this, where pow = pow and t = "Num (minTimeout (merged opts))" and err = None and tr = "[]"]
  show ?thesis
    by (simp add: retry_accepted[OF assms(1,2)])
qed

lemma retry_waits_on_exhaustion:
  assumes "0 \<le> maxTimeout (merged opts)"
    and "minTimeout (merged opts) \<le> maxTimeout (merged opts)"
    and "maxAttempts (merged opts) = real n"
    and "\<forall>j<n. isl (attempt fn random w j)"
  shows "length (waits (trace (retry pow fn random opts w))) = n"
proof -
  have "0 + n = n" by simp
  from retry_loop_exhausts[OF assms(3) this assms(4), where pow = pow and t = "Num (minTimeout (merged opts))" and err = None and tr = "[]"]
  show ?thesis
    by (simp add: retry_accepted[OF assms(1,2)])
qed

lemma retry_loop_trace:
  "\<exists>tl. trace (retry_loop pow fn random options i t err w tr) = tr @ tl \<and>
        (tl = [] \<or> hd tl = Invoked)"
proof (induction pow fn random options i t err w tr rule: retry_loop.induct)
  case (1 pow fn random options i timeout error w tr)
  show ?case
  proof (cases "real i < maxAttempts options")
    case False
    then show ?thesis by (simp add: retry_loop_exit)
  next
    case True
    obtain res w1 where f: "fn w = (res, w1)" by (cases "fn w")
    show ?thesis
    proof (cases res)
      case (Inr v)
      then show ?thesis using True f by (simp add: retry_loop_return)
    next
      case (Inl e)
      obtain r w2 where r: "random w1 = (r, w2)" by (cases "random w1")
      have f': "fn w = (Inl e, w1)" using f Inl by simp
      have step: "retry_loop pow fn random options i timeout error w tr =
          retry_loop pow fn random options (Suc i)
            (exponentialBackoffWithJitter pow (maxTimeout options) (minTimeout options) i
               (multiplier options) r)
            (Some e) w2 (tr @ [Invoked, Waited timeout])"
        using True f' r by (rule retry_loop_catch)
      have "\<exists>tl. trace (retry_loop pow fn random options (i + 1)
              (exponentialBackoffWithJitter pow (maxTimeout options) (minTimeout options) i
                 (multiplier options) r)
              (Some e) w2 (tr @ [Invoked, Waited timeout])) = (tr @ [Invoked, Waited timeout]) @ tl \<and>
              (tl = [] \<or> hd tl = Invoked)"
        by (rule "1.IH"[OF True f'[symmetric] refl r[symmetric]])
      then obtain tl where "trace (retry_loop pow fn random options i timeout error w tr) =
          tr @ (Invoked # Waited timeout # tl)"
        unfolding step by auto
      then show ?thesis by (intro exI[of _ "Invoked # Waited timeout # tl"]) simp
    qed
  qed
qed

lemma retry_first_event:
  "trace (retry pow fn random opts w) = [] \<or> hd (trace (retry pow fn random opts w)) = Invoked"
proof (cases "0 \<le> maxTimeout (merged opts) \<and> minTimeout (merged opts) \<le> maxTimeout (merged opts)")
  case True
  then have "retry pow fn random opts w =
      retry_loop pow fn random (merged opts) 0 (Num (minTimeout (merged opts))) None w []"
    by (simp add: retry_accepted)
  then show ?thesis
    using retry_loop_trace[of pow fn random "merged opts" 0 "Num (minTimeout (merged opts))" None w "[]"]
    by auto
next
  case False
  then have "maxTimeout (merged opts) < 0 \<or> maxTimeout (merged opts) < minTimeout (merged opts)"
    by auto
  then obtain msg where "retry pow fn random opts w =
      \<lparr>outcome = Inl (AssertionError msg), world = w, trace = []\<rparr>"
    using retry_rejected[of opts pow fn random w] by blast
  then show ?thesis by simp
qed

subsection \<open>Success and exhaustion\<close>

text \<open>
  C1. When the call is let into the loop, the first \<open>k\<close> attempts fail and attempt \<open>k\<close>
  (counted from 0, with \<open>k < maxAttempts\<close>) returns \<open>v\<close>, then \<open>retry\<close> returns exactly
  \<open>v\<close> and has invoked the operation exactly \<open>k + 1\<close> times.
\<close>

theorem retry_returns_first_success:
  assumes "0 \<le> maxTimeout (merged opts)"
    and "minTimeout (merged opts) \<le> maxTimeout (merged opts)"
    and "real k < maxAttempts (merged opts)"
    and "\<forall>j<k. isl (attempt fn random w j)"
    and "attempt fn random w k = Inr v"
  shows "outcome (retry pow fn random opts w) = Inr v \<and>
         invocations (trace (retry pow fn random opts w)) = k + 1"
proof -
  have "real (0 + k) < maxAttempts (merged opts)" using assms(3) by simp
  from retry_loop_succeeds[OF assms(4) assms(5) this, where pow = pow and t = "Num (minTimeout (merged opts))" and err = None and tr = "[]"]
  show ?thesis
    by (simp add: retry_accepted[OF assms(1,2)] invocations_def)
qed

theorem retry_returns_first_success_witness:
  "outcome (retry correctly_rounded (flaky 2) half (Some scenario) 0) = Inr 42 \<and>
   invocations (trace (retry correctly_rounded (flaky 2) half (Some scenario) 0)) = 2 + 1"
  using retry_returns_first_success[of "Some scenario" 2 "flaky 2" half 0 42 correctly_rounded]
  by (simp add: merged_scenario attempt_def numeral_2_eq_2 flaky_def half_def All_less_Suc)



subsection \<open>Rejected configurations\<close>

text \<open>
  C3. When the merged options have \<open>maxTimeout < 0\<close> or \<open>minTimeout > maxTimeout\<close>, the
  call fails with an assertion error, which is not a \<open>RetryError\<close>; the operation has
  not been invoked, nothing has been waited for and the world is as it was.
\<close>

theorem retry_rejects_bad_timeouts:
  assumes "maxTimeout (merged opts) < 0 \<or> minTimeout (merged opts) > maxTimeout (merged opts)"
  shows "(\<exists>msg. outcome (retry pow fn random opts w) = Inl (AssertionError msg)) \<and>
         (\<forall>cause count. outcome (retry pow fn random opts w) \<noteq> Inl (RetryError cause count)) \<and>
         invocations (trace (retry pow fn random opts w)) = 0 \<and>
         trace (retry pow fn random opts w) = [] \<and>
         world (retry pow fn random opts w) = w"
proof -
  obtain msg where "retry pow fn random opts w =
      \<lparr>outcome = Inl (AssertionError msg), world = w, trace = []\<rparr>"
    using retry_rejected[OF assms, of pow fn random w] by blast
  then show ?thesis by (simp add: invocations_def)
qed

theorem retry_rejects_bad_timeouts_witness:
  "(\<exists>msg. outcome (retry correctly_rounded broken half (Some inverted) 0) = Inl (AssertionError msg)) \<and>
   invocations (trace (retry correctly_rounded broken half (Some inverted) 0)) = 0 \<and>
   world (retry correctly_rounded broken half (Some inverted) 0) = 0"
proof -
  have bad: "maxTimeout (merged (Some inverted)) < 0 \<or>
             minTimeout (merged (Some inverted)) > maxTimeout (merged (Some inverted))"
    by (simp add: merged_inverted)
  from retry_rejects_bad_timeouts[OF bad, of correctly_rounded broken half 0] show ?thesis
    by blast
qed

subsection \<open>Waits\<close>

text \<open>
  C4. The claim is that a call whose attempts all fail waits \<open>maxAttempts - 1\<close> times,
  and that with \<open>maxAttempts = 1\<close> a failing operation gives the \<open>RetryError\<close> with no
  delay. The loop waits in every \<^verbatim>\<open>catch\<close>, also in the one of the last attempt:
  with \<open>maxAttempts = 1\<close> and an operation that fails, the call invokes the operation
  once, then waits the default \<open>minTimeout\<close> of 1000 ms, and only then fails. (By
  \<open>retry_waits_on_exhaustion\<close> a call whose \<open>n\<close> attempts all fail waits \<open>n\<close> times; by
  \<open>retry_waits_on_success\<close> a call that succeeds at attempt \<open>k\<close> waits \<open>k\<close> times; by
  \<open>retry_first_event\<close> nothing is waited for before the first attempt.)
\<close>

theorem retry_waits_after_final_failure:
  "retry pow broken half (Some one_attempt) 0 =
     \<lparr>outcome = Inl (RetryError (Some 0) 1), world = 1, trace = [Invoked, Waited (Num 1000)]\<rparr>"
proof -
  let ?c = "\<lparr>multiplier = 2, maxTimeout = 60000, maxAttempts = 1, minTimeout = 1000\<rparr>"
  have "retry pow broken half (Some one_attempt) 0 =
        retry_loop pow broken half ?c 0 (Num 1000) None 0 []"
    using retry_accepted[of "Some one_attempt" pow broken half 0]
    by (simp add: merged_one_attempt)
  also have "\<dots> = retry_loop pow broken half ?c (Suc 0)
      (exponentialBackoffWithJitter pow (maxTimeout ?c) (minTimeout ?c) 0 (multiplier ?c) (1 / 2))
      (Some 0) (Suc 0) ([] @ [Invoked, Waited (Num 1000)])"
    by (rule retry_loop_catch) (simp_all add: broken_def half_def)
  also have "\<dots> = \<lparr>outcome = Inl (RetryError (Some 0) 1), world = 1,
                     trace = [Invoked, Waited (Num 1000)]\<rparr>"
    by (simp add: retry_loop_exit)
  finally show ?thesis .
qed

subsection \<open>The backoff\<close>




subsection \<open>Invocation bounds\<close>



subsection \<open>Equal timeouts\<close>




subsection \<open>Defaults\<close>

text \<open>
  C8. Every call behaves as the call that passes all four fields, each field the
  caller left out with its documented default: multiplier 2, \<open>maxTimeout\<close> 60000,
  \<open>maxAttempts\<close> 5, \<open>minTimeout\<close> 1000. A call without options behaves as the call
  that passes the four defaults. What a call that passes all four fields does is
  fixed by them: the two assertions on them, then the loop on them.
\<close>

theorem retry_defaults:
  "retry pow fn random (Some p) w =
     retry pow fn random
       (Some \<lparr>opt_multiplier = Some (case opt_multiplier p of None \<Rightarrow> 2 | Some x \<Rightarrow> x),
              opt_maxTimeout = Some (case opt_maxTimeout p of None \<Rightarrow> 60000 | Some x \<Rightarrow> x),
              opt_maxAttempts = Some (case opt_maxAttempts p of None \<Rightarrow> 5 | Some x \<Rightarrow> x),
              opt_minTimeout = Some (case opt_minTimeout p of None \<Rightarrow> 1000 | Some x \<Rightarrow> x)\<rparr>) w \<and>
   retry pow fn random None w =
     retry pow fn random
       (Some \<lparr>opt_multiplier = Some 2, opt_maxTimeout = Some 60000, opt_maxAttempts = Some 5,
              opt_minTimeout = Some 1000\<rparr>) w \<and>
   retry pow fn random
       (Some \<lparr>opt_multiplier = Some a, opt_maxTimeout = Some b, opt_maxAttempts = Some c,
              opt_minTimeout = Some d\<rparr>) w =
     (if b < 0 then
        \<lparr>outcome = Inl (AssertionError ''maxTimeout is less than 0''), world = w, trace = []\<rparr>
      else if b < d then
        \<lparr>outcome = Inl (AssertionError ''minTimeout is greater than maxTimeout''), world = w,
         trace = []\<rparr>
      else
        retry_loop pow fn random
          \<lparr>multiplier = a, maxTimeout = b, maxAttempts = c, minTimeout = d\<rparr> 0 (Num d) None w [])"
  by (simp add: retry_def assert_def spread_options_def spread_field_def defaultRetryOptions_def
      split: option.split)

theorem retry_defaults_witness:
  "retry correctly_rounded broken half (Some one_attempt) 0 =
     retry correctly_rounded broken half
       (Some \<lparr>opt_multiplier = Some 2, opt_maxTimeout = Some 60000, opt_maxAttempts = Some 1,
              opt_minTimeout = Some 1000\<rparr>) 0 \<and>
   retry correctly_rounded broken half None 0 =
     retry correctly_rounded broken half
       (Some \<lparr>opt_multiplier = Some 2, opt_maxTimeout = Some 60000, opt_maxAttempts = Some 5,
              opt_minTimeout = Some 1000\<rparr>) 0"
  using retry_defaults[where p = one_attempt and pow = correctly_rounded and fn = broken
      and random = half and w = 0]
  by (simp add: one_attempt_def)

subsection \<open>No attempts at all\<close>

text \<open>
  C9. \<open>maxAttempts\<close> is not checked: when the timeouts pass the assertions and
  \<open>maxAttempts \<le> 0\<close>, the call invokes nothing, waits for nothing and fails with a
  \<open>RetryError\<close> whose cause is \<^verbatim>\<open>undefined\<close> and whose count is the given
  \<open>maxAttempts\<close>; it is not an assertion error.
\<close>

theorem retry_zero_attempts:
  assumes "0 \<le> maxTimeout (merged opts)"
    and "minTimeout (merged opts) \<le> maxTimeout (merged opts)"
    and "maxAttempts (merged opts) \<le> 0"
  shows "retry pow fn random opts w =
           \<lparr>outcome = Inl (RetryError None (maxAttempts (merged opts))), world = w, trace = []\<rparr>"
proof -
  have "\<not> real 0 < maxAttempts (merged opts)" using assms(3) by simp
  then show ?thesis
    by (simp add: retry_accepted[OF assms(1,2)] retry_loop_exit)
qed

theorem retry_zero_attempts_witness:
  "retry correctly_rounded broken half (Some no_attempts) 0 =
     \<lparr>outcome = Inl (RetryError None 0), world = 0, trace = []\<rparr>"
  using retry_zero_attempts[of "Some no_attempts" correctly_rounded broken half 0]
  by (simp add: merged_no_attempts)

subsection \<open>The caller's options object\<close>

text \<open>
  C10. \<open>retry\<close> does not write to the caller's options object: it reads it once into a
  new object. Whatever the object at the given address holds, when the operation and
  the random source leave it alone (the only other code that runs during the call),
  it holds the same after the call.
\<close>

theorem retry_leaves_options_object:
  assumes "\<forall>w. fst w a = obj \<longrightarrow> fst (snd (fn w)) a = obj"
    and "\<forall>w. fst w a = obj \<longrightarrow> fst (snd (random w)) a = obj"
    and "fst w a = obj"
  shows "fst (world (retry_by_reference pow fn random (Some a) w)) a = obj"
proof -
  let ?opts = "fst w a"
  let ?c = "merged ?opts"
  show ?thesis
  proof (cases "0 \<le> maxTimeout ?c \<and> minTimeout ?c \<le> maxTimeout ?c")
    case True
    then have "retry pow fn random ?opts w = retry_loop pow fn random ?c 0 (Num (minTimeout ?c)) None w []"
      by (simp add: retry_accepted)
    moreover have "fst (world (retry_loop pow fn random ?c 0 (Num (minTimeout ?c)) None w [])) a = obj"
      using assms by (rule retry_loop_world[where P = "\<lambda>w. fst w a = obj"])
    ultimately show ?thesis by (simp add: retry_by_reference_def)
  next
    case False
    then have "maxTimeout ?c < 0 \<or> maxTimeout ?c < minTimeout ?c" by auto
    then obtain msg where "retry pow fn random ?opts w =
        \<lparr>outcome = Inl (AssertionError msg), world = w, trace = []\<rparr>"
      using retry_rejected[of ?opts pow fn random w] by blast
    then show ?thesis using assms(3) by (simp add: retry_by_reference_def)
  qed
qed

theorem retry_leaves_options_object_witness:
  "fst (world (retry_by_reference correctly_rounded scribbler half (Some 0) ([0 \<mapsto> scenario], 0))) 0 = Some scenario"
  using retry_leaves_options_object[of 0 "Some scenario" scribbler half "([0 \<mapsto> scenario], 0)" correctly_rounded]
  by (simp add: scribbler_def half_def)

end
